theory Spec2Isabelle
  imports Complex_Main "HOL-Library.Product_Lexorder" "HOL-Library.Multiset"
begin

section \<open>Python text primitives used by the chart visualizer\<close>

text \<open>
  Texts are lists of characters with code points below 256. A float read from the text
  is a \<open>pyfloat\<close>: a finite binary64 value, given by the rational it equals, one of the
  two infinities, or nan. The beats of notes, which the program computes from small
  integers, are rationals.
\<close>

datatype error = ValueError | TypeError | IndexError

definition bind_err :: "error + 'a \<Rightarrow> ('a \<Rightarrow> error + 'b) \<Rightarrow> error + 'b" where
  "bind_err m f = (case m of Inl e \<Rightarrow> Inl e | Inr x \<Rightarrow> f x)"

text \<open>\<^verbatim>\<open>str.isspace\<close> on one character, which is also the class \<^verbatim>\<open>\s\<close> of \<^verbatim>\<open>re\<close>.\<close>

definition isspace :: "char \<Rightarrow> bool" where
  "isspace c = ((of_char c :: nat) \<in> set [9, 10, 11, 12, 13, 28, 29, 30, 31, 32, 133, 160])"

text \<open>\<^verbatim>\<open>str.strip()\<close>.\<close>

definition strip :: "string \<Rightarrow> string" where
  "strip s = rev (dropWhile isspace (rev (dropWhile isspace s)))"

text \<open>\<^verbatim>\<open>str.split(sep)\<close> for a one-character separator: always at least one piece.\<close>

fun split_on :: "char \<Rightarrow> string \<Rightarrow> string list" where
  "split_on sep [] = [[]]"
| "split_on sep (c # cs) =
     (if c = sep then [] # split_on sep cs
      else (case split_on sep cs of [] \<Rightarrow> [[c]] | w # ws \<Rightarrow> (c # w) # ws))"

subsection \<open>Reading numbers: \<^verbatim>\<open>float(s)\<close> and \<^verbatim>\<open>int(s)\<close>\<close>

definition isdigit :: "char \<Rightarrow> bool" where
  "isdigit c = (48 \<le> (of_char c :: nat) \<and> (of_char c :: nat) \<le> 57)"

definition digit_val :: "char \<Rightarrow> nat" where
  "digit_val c = of_char c - 48"

text \<open>The blanks that \<^verbatim>\<open>float\<close> and \<^verbatim>\<open>int\<close> drop around a literal: the ASCII
  blanks and the two non-ASCII spaces below 256 (the separators 28 to 31 are not dropped).\<close>

definition num_space :: "char \<Rightarrow> bool" where
  "num_space c = ((of_char c :: nat) \<in> set [9, 10, 11, 12, 13, 32, 133, 160])"

definition num_strip :: "string \<Rightarrow> string" where
  "num_strip s = rev (dropWhile num_space (rev (dropWhile num_space s)))"

text \<open>A digit part: digits, single underscores allowed between two digits.
  \<open>digits_from acc k s\<close> reads the longest digit part at the head of \<open>s\<close>, continuing
  the value \<open>acc\<close> of the \<open>k\<close> digits read so far; it gives the value, the number of
  digits and the rest.\<close>

fun digits_from :: "nat \<Rightarrow> nat \<Rightarrow> string \<Rightarrow> nat \<times> nat \<times> string" where
  "digits_from acc k [] = (acc, k, [])"
| "digits_from acc k [c] = (if isdigit c then (10 * acc + digit_val c, Suc k, []) else (acc, k, [c]))"
| "digits_from acc k (c # d # cs) =
     (if isdigit c then digits_from (10 * acc + digit_val c) (Suc k) (d # cs)
      else if c = CHR ''_'' \<and> 0 < k \<and> isdigit d then digits_from acc k (d # cs)
      else (acc, k, c # d # cs))"

definition read_sign :: "string \<Rightarrow> bool \<times> string" where
  "read_sign s = (case s of [] \<Rightarrow> (False, [])
     | c # cs \<Rightarrow> if c = CHR ''-'' then (True, cs) else if c = CHR ''+'' then (False, cs) else (False, c # cs))"

text \<open>The exponent of a float literal, if one follows: \<open>Some (e, rest)\<close>; a letter
  \<^verbatim>\<open>e\<close> with no digits after it is no exponent and makes the literal ill-formed.\<close>

definition read_exponent :: "string \<Rightarrow> (int \<times> string) option" where
  "read_exponent s = (case s of [] \<Rightarrow> Some (0, [])
     | c # cs \<Rightarrow>
        if c = CHR ''e'' \<or> c = CHR ''E'' then
          (let (neg, r) = read_sign cs; (v, k, r') = digits_from 0 0 r
           in if k = 0 then None else Some (if neg then - int v else int v, r'))
        else Some (0, c # cs))"

definition scale10 :: "rat \<Rightarrow> int \<Rightarrow> rat" where
  "scale10 m e = (if 0 \<le> e then m * 10 ^ nat e else m / 10 ^ nat (- e))"

datatype pyfloat = Finite rat | PosInf | NegInf | NaN

text \<open>Rounding a rational to binary64, to nearest with ties to even, as \<^verbatim>\<open>float\<close> does
  with the value of a literal: 53 significant bits, exponents from -1022 (below that the
  spacing stays \<open>2 ^ -1074\<close>, so tiny values go to zero), and infinity when the rounded
  value would reach \<open>2 ^ 1024\<close>: the exponent is above 1023, or it is 1023 and the
  significand rounds up to \<open>2 ^ 53\<close>. The two zeros are one value here; they compare
  equal.\<close>

fun bit_length :: "nat \<Rightarrow> nat" where
  "bit_length n = (if n = 0 then 0 else Suc (bit_length (n div 2)))"

definition pow2 :: "int \<Rightarrow> rat" where
  "pow2 k = (if 0 \<le> k then 2 ^ nat k else 1 / 2 ^ nat (- k))"

text \<open>For \<open>a > 0\<close>: the \<open>e\<close> with \<open>2 ^ e \<le> a < 2 ^ (e + 1)\<close>.\<close>

definition floor_log2 :: "rat \<Rightarrow> int" where
  "floor_log2 a =
     (let (p, q) = quotient_of a;
          e = int (bit_length (nat p)) - int (bit_length (nat q))
      in if pow2 e \<le> a then e else e - 1)"

definition round_half_even :: "rat \<Rightarrow> int" where
  "round_half_even x =
     (let f = \<lfloor>x\<rfloor>; d = x - of_int f
      in if d < 1 / 2 then f else if 1 / 2 < d then f + 1 else if even f then f else f + 1)"

definition round_binary64 :: "rat \<Rightarrow> pyfloat" where
  "round_binary64 q =
     (if q = 0 then Finite 0
      else (let a = \<bar>q\<bar>;
                e = max (floor_log2 a) (- 1022);
                ulp = pow2 (e - 52);
                n = round_half_even (a / ulp)
            in if 1023 < e \<or> (e = 1023 \<and> 2 ^ 53 \<le> n)
               then (if q < 0 then NegInf else PosInf)
               else Finite ((if q < 0 then - 1 else 1) * of_int n * ulp)))"

definition lower :: "char \<Rightarrow> char" where
  "lower c =
     (if 65 \<le> (of_char c :: nat) \<and> (of_char c :: nat) \<le> 90
      then char_of (of_char c + 32 :: nat) else c)"

text \<open>\<^verbatim>\<open>float(s)\<close>: blanks around the literal are dropped; after an optional sign come
  \<^verbatim>\<open>inf\<close>, \<^verbatim>\<open>infinity\<close> or \<^verbatim>\<open>nan\<close> in any case, or a decimal number with an optional
  exponent. \<open>None\<close> stands for ValueError.\<close>

definition py_float :: "string \<Rightarrow> pyfloat option" where
  "py_float s =
     (let (neg, r) = read_sign (num_strip s); w = map lower r
      in if w = ''inf'' \<or> w = ''infinity'' then Some (if neg then NegInf else PosInf)
         else if w = ''nan'' then Some NaN
         else
          (let (ip, ik, r1) = digits_from 0 0 r;
               (fp, fk, r2) = (case r1 of [] \<Rightarrow> (0, 0, [])
                               | c # cs \<Rightarrow> if c = CHR ''.'' then digits_from 0 0 cs else (0, 0, c # cs))
           in if ik = 0 \<and> fk = 0 then None
              else (case read_exponent r2 of
                      None \<Rightarrow> None
                    | Some (e, r3) \<Rightarrow>
                        if r3 \<noteq> [] then None
                        else (let m = of_nat ip + of_nat fp / 10 ^ fk
                              in Some (round_binary64 (scale10 (if neg then - m else m) e))))))"

subsection \<open>Comparing floats and tuples, and \<^verbatim>\<open>sorted\<close>\<close>

text \<open>\<^verbatim>\<open>x < y\<close> and \<^verbatim>\<open>x == y\<close> on floats: every comparison with nan is false.\<close>

fun py_lt :: "pyfloat \<Rightarrow> pyfloat \<Rightarrow> bool" where
  "py_lt NaN y = False"
| "py_lt x NaN = False"
| "py_lt (Finite x) (Finite y) = (x < y)"
| "py_lt (Finite x) PosInf = True"
| "py_lt (Finite x) NegInf = False"
| "py_lt PosInf y = False"
| "py_lt NegInf NegInf = False"
| "py_lt NegInf y = True"

definition py_eq :: "pyfloat \<Rightarrow> pyfloat \<Rightarrow> bool" where
  "py_eq x y = (x = y \<and> x \<noteq> NaN)"

definition py_le :: "pyfloat \<Rightarrow> pyfloat \<Rightarrow> bool" where
  "py_le x y = (py_lt x y \<or> py_eq x y)"

text \<open>\<^verbatim>\<open>s < t\<close> on tuples: the first position where the items are not \<^verbatim>\<open>==\<close> decides.\<close>

definition pair_lt :: "pyfloat \<times> pyfloat \<Rightarrow> pyfloat \<times> pyfloat \<Rightarrow> bool" where
  "pair_lt = (\<lambda>(a, b) (c, d).
     if \<not> py_eq a c then py_lt a c else if \<not> py_eq b d then py_lt b d else False)"

definition triple_lt ::
  "pyfloat \<times> pyfloat \<times> pyfloat \<Rightarrow> pyfloat \<times> pyfloat \<times> pyfloat \<Rightarrow> bool" where
  "triple_lt = (\<lambda>(a, b, c) (d, e, f).
     if \<not> py_eq a d then py_lt a d
     else if \<not> py_eq b e then py_lt b e
     else if \<not> py_eq c f then py_lt c f else False)"

text \<open>
  \<^verbatim>\<open>sorted\<close> is a stable sort that asks only \<^verbatim>\<open>x < y\<close>. Where \<^verbatim>\<open><\<close> orders the
  elements (for tuples of floats: no nan in a compared field) all stable sorts return the
  same list, and it is the one computed here by insertion: each element in turn moves
  left past the elements it is less than. With a nan in a compared field the list that
  \<^verbatim>\<open>sorted\<close> returns depends on which comparisons its merge sort makes; the insertion
  below is then one such outcome and no property is stated for it.
  \<open>insert_desc\<close> works on the part sorted so far, held back to front.
\<close>

fun insert_desc :: "('a \<Rightarrow> 'a \<Rightarrow> bool) \<Rightarrow> 'a \<Rightarrow> 'a list \<Rightarrow> 'a list" where
  "insert_desc lt x [] = [x]"
| "insert_desc lt x (y # ys) = (if lt x y then y # insert_desc lt x ys else x # y # ys)"

definition py_sorted :: "('a \<Rightarrow> 'a \<Rightarrow> bool) \<Rightarrow> 'a list \<Rightarrow> 'a list" where
  "py_sorted lt xs = rev (fold (insert_desc lt) xs [])"

definition py_int :: "string \<Rightarrow> int option" where
  "py_int s =
     (let (neg, r) = read_sign (num_strip s); (v, k, r') = digits_from 0 0 r
      in if k = 0 \<or> r' \<noteq> [] then None else Some (if neg then - int v else int v))"

section \<open>Tag blocks: \<^verbatim>\<open>re.search('#TAG:([^;]*);', content)\<close>\<close>

text \<open>The pattern anchored at the head of \<open>s\<close>: the literal \<^verbatim>\<open>#TAG:\<close>, then every
  character up to the next \<^verbatim>\<open>;\<close>, which must be there. The result is group 1.\<close>

definition match_tag_at :: "string \<Rightarrow> string \<Rightarrow> string option" where
  "match_tag_at tag s =
     (let lit = ''#'' @ tag @ '':''; rest = drop (length lit) s;
          body = takeWhile (\<lambda>c. c \<noteq> CHR '';'') rest
      in if take (length lit) s = lit \<and> length body < length rest then Some body else None)"

text \<open>\<^verbatim>\<open>re.search\<close>: the leftmost position where the pattern matches.\<close>

fun re_search_tag :: "string \<Rightarrow> string \<Rightarrow> string option" where
  "re_search_tag tag [] = None"
| "re_search_tag tag (c # cs) =
     (case match_tag_at tag (c # cs) of Some b \<Rightarrow> Some b | None \<Rightarrow> re_search_tag tag cs)"

definition extract_tag :: "string \<Rightarrow> string \<Rightarrow> string" where
  "extract_tag content tag = (case re_search_tag tag content of Some b \<Rightarrow> strip b | None \<Rightarrow> [])"

section \<open>The timing lists\<close>

text \<open>
  \<^verbatim>\<open>_parse_bpms\<close>, \<^verbatim>\<open>_parse_stops\<close>, \<^verbatim>\<open>_parse_warps\<close>, \<^verbatim>\<open>_parse_fakes\<close> and
  \<^verbatim>\<open>_parse_scrolls\<close> have the same body up to the tag and the names of the locals.
  \<open>pair_entry\<close> is the body of their loop for one piece of the split: a piece without
  \<^verbatim>\<open>=\<close> is skipped; \<^verbatim>\<open>beat, value = piece.split('=')\<close> raises ValueError unless there
  are exactly two parts, and so does \<^verbatim>\<open>float\<close> on a part that is no number.
\<close>

definition pair_entry :: "string \<Rightarrow> (pyfloat \<times> pyfloat) list \<Rightarrow> error + (pyfloat \<times> pyfloat) list" where
  "pair_entry piece acc =
     (if CHR ''='' \<in> set piece then
        (case split_on CHR ''='' piece of
           [beat, val] \<Rightarrow>
             (case py_float beat of None \<Rightarrow> Inl ValueError
              | Some b \<Rightarrow> (case py_float val of None \<Rightarrow> Inl ValueError
                           | Some v \<Rightarrow> Inr (acc @ [(b, v)])))
         | _ \<Rightarrow> Inl ValueError)
      else Inr acc)"

fun pair_loop :: "string list \<Rightarrow> (pyfloat \<times> pyfloat) list \<Rightarrow> error + (pyfloat \<times> pyfloat) list" where
  "pair_loop [] acc = Inr acc"
| "pair_loop (p # ps) acc = bind_err (pair_entry p acc) (pair_loop ps)"

text \<open>The list as collected, before \<^verbatim>\<open>sorted\<close>.\<close>

definition pair_entries :: "string \<Rightarrow> string \<Rightarrow> error + (pyfloat \<times> pyfloat) list" where
  "pair_entries tag content =
     (case re_search_tag tag content of
        Some body \<Rightarrow> pair_loop (split_on CHR '','' (strip body)) []
      | None \<Rightarrow> Inr [])"

definition parse_pairs :: "string \<Rightarrow> string \<Rightarrow> error + (pyfloat \<times> pyfloat) list" where
  "parse_pairs tag content =
     bind_err (pair_entries tag content) (\<lambda>xs. Inr (py_sorted pair_lt xs))"

definition parse_bpms :: "string \<Rightarrow> error + (pyfloat \<times> pyfloat) list" where
  "parse_bpms content = parse_pairs ''BPMS'' content"

definition parse_stops :: "string \<Rightarrow> error + (pyfloat \<times> pyfloat) list" where
  "parse_stops content = parse_pairs ''STOPS'' content"

definition parse_warps :: "string \<Rightarrow> error + (pyfloat \<times> pyfloat) list" where
  "parse_warps content = parse_pairs ''WARPS'' content"

definition parse_fakes :: "string \<Rightarrow> error + (pyfloat \<times> pyfloat) list" where
  "parse_fakes content = parse_pairs ''FAKES'' content"

definition parse_scrolls :: "string \<Rightarrow> error + (pyfloat \<times> pyfloat) list" where
  "parse_scrolls content = parse_pairs ''SCROLLS'' content"

text \<open>\<^verbatim>\<open>_parse_speeds\<close>: the piece is split on \<^verbatim>\<open>=\<close> into beat and data, and data on
  \<^verbatim>\<open>,\<close> into multiplier and duration; each unpacking raises ValueError unless there are
  exactly two parts.\<close>

definition speed_entry :: "string \<Rightarrow> (pyfloat \<times> pyfloat \<times> pyfloat) list \<Rightarrow> error + (pyfloat \<times> pyfloat \<times> pyfloat) list" where
  "speed_entry piece acc =
     (if CHR ''='' \<in> set piece then
        (case split_on CHR ''='' piece of
           [beat, data] \<Rightarrow>
             (case split_on CHR '','' data of
                [multiplier, duration] \<Rightarrow>
                  (case py_float beat of None \<Rightarrow> Inl ValueError
                   | Some b \<Rightarrow> (case py_float multiplier of None \<Rightarrow> Inl ValueError
                     | Some m \<Rightarrow> (case py_float duration of None \<Rightarrow> Inl ValueError
                       | Some d \<Rightarrow> Inr (acc @ [(b, m, d)]))))
              | _ \<Rightarrow> Inl ValueError)
         | _ \<Rightarrow> Inl ValueError)
      else Inr acc)"

fun speed_loop :: "string list \<Rightarrow> (pyfloat \<times> pyfloat \<times> pyfloat) list \<Rightarrow> error + (pyfloat \<times> pyfloat \<times> pyfloat) list" where
  "speed_loop [] acc = Inr acc"
| "speed_loop (p # ps) acc = bind_err (speed_entry p acc) (speed_loop ps)"

definition speed_entries :: "string \<Rightarrow> error + (pyfloat \<times> pyfloat \<times> pyfloat) list" where
  "speed_entries content =
     (case re_search_tag ''SPEEDS'' content of
        Some body \<Rightarrow> speed_loop (split_on CHR '','' (strip body)) []
      | None \<Rightarrow> Inr [])"

definition parse_speeds :: "string \<Rightarrow> error + (pyfloat \<times> pyfloat \<times> pyfloat) list" where
  "parse_speeds content =
     bind_err (speed_entries content) (\<lambda>xs. Inr (py_sorted triple_lt xs))"

section \<open>Notes and the grid symbol table\<close>

record Note =
  beat :: rat
  column :: nat
  type :: string
  hold_length :: rat
  is_fake :: bool

text \<open>A dict display stores its items from left to right, a later item replacing an
  earlier one with the same key.\<close>

definition dict_of :: "('k \<times> 'v) list \<Rightarrow> ('k \<rightharpoonup> 'v)" where
  "dict_of items = fold (\<lambda>(k, v) m. m(k \<mapsto> v)) items Map.empty"

definition NOTE_TYPES_items :: "(char \<times> string) list" where
  "NOTE_TYPES_items =
     [(CHR ''1'', ''tap''),
      (CHR ''2'', ''hold_head''),
      (CHR ''3'', ''hold_tail''),
      (CHR ''M'', ''mine''),
      (CHR ''4'', ''roll_head''),
      (CHR ''3'', ''roll_tail''),
      (CHR ''0'', ''none''),
      (CHR ''F'', ''fake''),
      (CHR ''L'', ''lift'')]"

definition NOTE_TYPES :: "char \<rightharpoonup> string" where
  "NOTE_TYPES = dict_of NOTE_TYPES_items"

section \<open>Hold resolution: \<^verbatim>\<open>_process_holds\<close>\<close>

definition hold_heads :: "Note list \<Rightarrow> nat list" where
  "hold_heads ns = filter (\<lambda>i. type (ns ! i) \<in> set [''hold_head'', ''roll_head'']) [0..<length ns]"

text \<open>The body of the loop over the head indices: the first later note in the head's
  column whose type is one of the two tail types gives the head its length.\<close>

definition process_head :: "nat \<Rightarrow> Note list \<Rightarrow> Note list" where
  "process_head head_idx ns =
     (let head = ns ! head_idx
      in case find (\<lambda>note. column note = column head \<and> type note \<in> set [''hold_tail'', ''roll_tail''])
                   (drop (head_idx + 1) ns) of
           Some note \<Rightarrow> ns[head_idx := head\<lparr>hold_length := beat note - beat head\<rparr>]
         | None \<Rightarrow> ns)"

definition process_holds :: "Note list \<Rightarrow> Note list" where
  "process_holds ns = fold process_head (hold_heads ns) ns"

section \<open>The note grid: \<^verbatim>\<open>_parse_notes\<close>\<close>

text \<open>The state is \<^verbatim>\<open>self.notes\<close>, the one list of the visualizer object that every
  call appends to.\<close>

definition newline :: char where
  "newline = CHR 0x0A"

definition measure_rows :: "string \<Rightarrow> string list" where
  "measure_rows measure_text =
     map strip (filter (\<lambda>row. strip row \<noteq> []) (split_on newline (strip measure_text)))"

definition parse_char :: "rat \<Rightarrow> nat \<times> char \<Rightarrow> Note list \<Rightarrow> Note list" where
  "parse_char b = (\<lambda>(col, note_type) ns.
     case NOTE_TYPES note_type of
       None \<Rightarrow> ns
     | Some kind \<Rightarrow>
         if note_type \<noteq> CHR ''0''
         then ns @ [\<lparr>beat = b, column = col, type = kind, hold_length = 0, is_fake = False\<rparr>]
         else ns)"

definition parse_row :: "rat \<Rightarrow> rat \<Rightarrow> nat \<times> string \<Rightarrow> Note list \<Rightarrow> Note list" where
  "parse_row current_beat beats_per_row = (\<lambda>(row_idx, row) ns.
     if length row \<notin> set [4, 8] then ns
     else fold (parse_char (current_beat + of_nat row_idx * beats_per_row)) (enumerate 0 row) ns)"

definition parse_measure :: "string \<Rightarrow> rat \<times> Note list \<Rightarrow> rat \<times> Note list" where
  "parse_measure measure_text = (\<lambda>(current_beat, ns).
     let rows = measure_rows measure_text
     in if rows = [] then (current_beat, ns)
        else (current_beat + 4,
              fold (parse_row current_beat (4 / of_nat (length rows))) (enumerate 0 rows) ns))"

text \<open>The function has no \<^verbatim>\<open>return\<close>: its value is \<^verbatim>\<open>None\<close>, and its effect is the new
  \<^verbatim>\<open>self.notes\<close>.\<close>

definition parse_notes :: "string \<Rightarrow> Note list \<Rightarrow> Note list option \<times> Note list" where
  "parse_notes notes_data ns =
     (None, process_holds (snd (fold parse_measure (split_on CHR '','' (strip notes_data)) (0, ns))))"

section \<open>Chart sections: \<^verbatim>\<open>parse_sm_file\<close>\<close>

text \<open>One field \<^verbatim>\<open>([^:]*):\<close> of the section pattern: the text up to the next colon,
  which must be there, and what follows the colon.\<close>

definition colon_field :: "string \<Rightarrow> (string \<times> string) option" where
  "colon_field s =
     (let f = takeWhile (\<lambda>c. c \<noteq> CHR '':'') s
      in if length f < length s then Some (f, drop (Suc (length f)) s) else None)"

text \<open>The section pattern
  \<^verbatim>\<open>#NOTES:\s*([^:]*):([^:]*):([^:]*):([^:]*):([^:]*):([^;]*);\<close> anchored at the head of
  \<open>s\<close>: the six groups and the text after the match.\<close>

definition match_notes_at ::
  "string \<Rightarrow> ((string \<times> string \<times> string \<times> string \<times> string \<times> string) \<times> string) option" where
  "match_notes_at s =
     (if take 7 s = ''#NOTES:'' then
        (case colon_field (dropWhile isspace (drop 7 s)) of None \<Rightarrow> None | Some (g1, r1) \<Rightarrow>
        (case colon_field r1 of None \<Rightarrow> None | Some (g2, r2) \<Rightarrow>
        (case colon_field r2 of None \<Rightarrow> None | Some (g3, r3) \<Rightarrow>
        (case colon_field r3 of None \<Rightarrow> None | Some (g4, r4) \<Rightarrow>
        (case colon_field r4 of None \<Rightarrow> None | Some (g5, r5) \<Rightarrow>
          (let g6 = takeWhile (\<lambda>c. c \<noteq> CHR '';'') r5
           in if length g6 < length r5
              then Some ((g1, g2, g3, g4, g5, g6), drop (Suc (length g6)) r5)
              else None))))))
      else None)"

text \<open>\<^verbatim>\<open>re.finditer\<close>: the matches from left to right, each search starting where the
  match before it ended.\<close>

function finditer_notes ::
  "string \<Rightarrow> (string \<times> string \<times> string \<times> string \<times> string \<times> string) list" where
  "finditer_notes [] = []"
| "finditer_notes (c # cs) =
     (case match_notes_at (c # cs) of
        Some (g, rest) \<Rightarrow> g # finditer_notes rest
      | None \<Rightarrow> finditer_notes cs)"
  by pat_completeness auto
termination
proof (relation "measure length")
  show "wf (measure length)" by simp
next
  fix c cs x g rest
  assume m: "match_notes_at (c # cs) = Some x" and x: "(g, rest) = x"
  have cf: "\<And>s f r. colon_field s = Some (f, r) \<Longrightarrow> length r < length s"
    by (auto simp: colon_field_def Let_def split: if_splits)
  have dw: "length (dropWhile isspace (drop 6 cs)) \<le> length cs"
    by (rule order_trans [OF length_dropWhile_le]) simp
  from m x dw have "length rest < length (c # cs)"
    unfolding match_notes_at_def Let_def
    by (auto split: if_splits option.splits dest!: cf) arith
  then show "(rest, c # cs) \<in> measure length" by simp
next
  fix c :: char and cs :: string
  show "(cs, c # cs) \<in> measure length" by simp
qed

record ChartMetadata =
  title :: string
  subtitle :: string
  artist :: string
  credit :: string
  difficulty :: string
  meter :: int
  bpms :: "(pyfloat \<times> pyfloat) list"
  stops :: "(pyfloat \<times> pyfloat) list"
  warps :: "(pyfloat \<times> pyfloat) list"
  fakes :: "(pyfloat \<times> pyfloat) list"
  speeds :: "(pyfloat \<times> pyfloat \<times> pyfloat) list"
  scrolls :: "(pyfloat \<times> pyfloat) list"

text \<open>One entry of the list \<^verbatim>\<open>charts\<close>: the dict with the keys \<^verbatim>\<open>metadata\<close>,
  \<^verbatim>\<open>notes\<close> and \<^verbatim>\<open>type\<close>. The notes are what \<^verbatim>\<open>_parse_notes\<close> returned.\<close>

record chart =
  chart_metadata :: ChartMetadata
  chart_notes :: "Note list option"
  chart_type :: string

text \<open>The body of the loop over the sections; \<open>base\<close> carries the file's metadata, with
  difficulty and meter still to be filled in.\<close>

definition section_step ::
  "ChartMetadata \<Rightarrow> (string \<times> string \<times> string \<times> string \<times> string \<times> string) \<Rightarrow>
   chart list \<times> Note list \<Rightarrow> error + (chart list \<times> Note list)" where
  "section_step base = (\<lambda>(ctype, desc, diff_class, diff_meter, groove_radar, notes_data) (charts, ns).
     if strip ctype \<notin> set [''dance-single'', ''dance-double''] then Inr (charts, ns)
     else (case py_int (strip diff_meter) of
             None \<Rightarrow> Inl ValueError
           | Some m \<Rightarrow>
               (let (notes, ns') = parse_notes (strip notes_data) ns
                in Inr (charts @ [\<lparr>chart_metadata = base\<lparr>difficulty := strip diff_class, meter := m\<rparr>,
                                   chart_notes = notes,
                                   chart_type = strip ctype\<rparr>], ns'))))"

fun sections_loop ::
  "ChartMetadata \<Rightarrow> (string \<times> string \<times> string \<times> string \<times> string \<times> string) list \<Rightarrow>
   chart list \<times> Note list \<Rightarrow> error + (chart list \<times> Note list)" where
  "sections_loop base [] st = Inr st"
| "sections_loop base (g # gs) st = bind_err (section_step base g st) (sections_loop base gs)"

text \<open>\<open>parse_sm_file content ns\<close>: the text of the file and \<^verbatim>\<open>self.notes\<close> before the
  call; the list of charts and \<^verbatim>\<open>self.notes\<close> after it.\<close>

definition parse_sm_file :: "string \<Rightarrow> Note list \<Rightarrow> error + (chart list \<times> Note list)" where
  "parse_sm_file content ns =
     bind_err (parse_bpms content) (\<lambda>b.
     bind_err (parse_stops content) (\<lambda>s.
     bind_err (parse_warps content) (\<lambda>w.
     bind_err (parse_fakes content) (\<lambda>f.
     bind_err (parse_speeds content) (\<lambda>sp.
     bind_err (parse_scrolls content) (\<lambda>sc.
       sections_loop
         \<lparr>title = extract_tag content ''TITLE'', subtitle = extract_tag content ''SUBTITLE'',
          artist = extract_tag content ''ARTIST'', credit = extract_tag content ''CREDIT'',
          difficulty = [], meter = 0,
          bpms = b, stops = s, warps = w, fakes = f, speeds = sp, scrolls = sc\<rparr>
         (finditer_notes content) ([], ns)))))))"

text \<open>The constructor: an empty \<^verbatim>\<open>self.notes\<close>, then a first \<^verbatim>\<open>parse_sm_file\<close> whose
  list of charts is dropped.\<close>

definition init :: "string \<Rightarrow> error + Note list" where
  "init content = bind_err (parse_sm_file content []) (\<lambda>(charts, ns). Inr ns)"

section \<open>Image dimensions: the head of \<^verbatim>\<open>generate_visualization\<close>\<close>

text \<open>\<^verbatim>\<open>int(x)\<close> on a float rounds towards zero.\<close>

definition py_trunc :: "rat \<Rightarrow> int" where
  "py_trunc x = (if 0 \<le> x then \<lfloor>x\<rfloor> else \<lceil>x\<rceil>)"

text \<open>The statements up to the computation of \<^verbatim>\<open>width\<close> and \<^verbatim>\<open>height\<close>, which the
  image is then created with. \<^verbatim>\<open>max\<close> of no beats raises ValueError, iterating or
  indexing \<^verbatim>\<open>None\<close> raises TypeError, and \<^verbatim>\<open>[0]\<close> on an empty list raises IndexError.\<close>

definition derive_measures :: "Note list option \<Rightarrow> error + int" where
  "derive_measures notes =
     (case notes of
        None \<Rightarrow> Inl TypeError
      | Some [] \<Rightarrow> Inl ValueError
      | Some (n # ns) \<Rightarrow> Inr (py_trunc (fold max (map beat ns) (beat n) / 4) + 1))"

definition generate_visualization :: "chart \<Rightarrow> int option \<Rightarrow> error + (int \<times> int)" where
  "generate_visualization chart_data measures_arg =
     (let padding = 40; note_size = 20; pixels_per_beat = 60; column_width = note_size + 4
      in bind_err
           (case measures_arg of
              None \<Rightarrow> derive_measures (chart_notes chart_data)
            | Some m \<Rightarrow> if m = 0 then derive_measures (chart_notes chart_data) else Inr m)
           (\<lambda>n_measures.
              case chart_notes chart_data of
                None \<Rightarrow> Inl TypeError
              | Some [] \<Rightarrow> Inl IndexError
              | Some (n # ns) \<Rightarrow>
                  Inr ((padding * 2) + (int (length (type n)) * column_width),
                       (padding * 2) + (n_measures * 4 * pixels_per_beat))))"

section \<open>Predicates and inputs used to state the properties\<close>

definition two_sections :: string where
  "two_sections = ''#NOTES:dance-single::Easy:1::1000;#NOTES:dance-single::Hard:9::0100;''"

definition tap_at :: "rat \<Rightarrow> nat \<Rightarrow> Note" where
  "tap_at b col = \<lparr>beat = b, column = col, type = ''tap'', hold_length = 0, is_fake = False\<rparr>"

text \<open>A block \<^verbatim>\<open>#TAG:...;\<close> occurs in a text when the literal \<^verbatim>\<open>#TAG:\<close> stands at some
  position and a semicolon comes somewhere after it.\<close>

definition tag_block_occurs :: "string \<Rightarrow> string \<Rightarrow> bool" where
  "tag_block_occurs tag content =
     (\<exists>i \<in> set [0..<length content].
        take (length tag + 2) (drop i content) = ''#'' @ tag @ '':'' \<and>
        CHR '';'' \<in> set (drop (i + length tag + 2) content))"

text \<open>No field of the list is nan.\<close>

definition nan_free :: "(pyfloat \<times> pyfloat) list \<Rightarrow> bool" where
  "nan_free r = list_all (\<lambda>(b, v). b \<noteq> NaN \<and> v \<noteq> NaN) r"

text \<open>Sorted by beat, and entries of equal beat in the order of their values.\<close>

definition beat_value_sorted :: "(pyfloat \<times> pyfloat) list \<Rightarrow> bool" where
  "beat_value_sorted r =
     (sorted_wrt (\<lambda>x y. py_le (fst x) (fst y)) r \<and>
      sorted_wrt (\<lambda>x y. py_eq (fst x) (fst y) \<longrightarrow> py_le (snd x) (snd y)) r)"

definition timing_example :: string where
  "timing_example =
     ''#BPMS:4=120,0=200,0=100;#STOPS:8=0.5,2=0.25;#WARPS:1=inf;#FAKES:3=1,3=1;#SPEEDS:;#SCROLLS:2=1,-inf=2;''"

text \<open>The order of tuples without nan, and keys in a linear order that reflect it; used
  in the proofs about \<open>py_sorted\<close>.\<close>

definition pair_le :: "pyfloat \<times> pyfloat \<Rightarrow> pyfloat \<times> pyfloat \<Rightarrow> bool" where
  "pair_le x y = (py_lt (fst x) (fst y) \<or> (py_eq (fst x) (fst y) \<and> py_le (snd x) (snd y)))"

definition float_key :: "pyfloat \<Rightarrow> nat \<times> rat" where
  "float_key x = (case x of NegInf \<Rightarrow> (0, 0) | Finite q \<Rightarrow> (1, q) | PosInf \<Rightarrow> (2, 0) | NaN \<Rightarrow> (3, 0))"

definition pair_key :: "pyfloat \<times> pyfloat \<Rightarrow> (nat \<times> rat) \<times> (nat \<times> rat)" where
  "pair_key p = (float_key (fst p), float_key (snd p))"

text \<open>Hold resolution. \<open>first_tail ns i\<close> is the first note after position \<open>i\<close> that is in
  the column of note \<open>i\<close> and is a hold tail or a roll tail. \<open>core\<close> is what hold
  resolution leaves alone.\<close>

definition first_tail :: "Note list \<Rightarrow> nat \<Rightarrow> Note option" where
  "first_tail ns i =
     find (\<lambda>t. column t = column (ns ! i) \<and> (type t = ''hold_tail'' \<or> type t = ''roll_tail''))
          (drop (Suc i) ns)"

definition core :: "Note \<Rightarrow> rat \<times> nat \<times> string \<times> bool" where
  "core n = (beat n, column n, type n, is_fake n)"

definition mk_note :: "rat \<Rightarrow> nat \<Rightarrow> string \<Rightarrow> Note" where
  "mk_note b col kind = \<lparr>beat = b, column = col, type = kind, hold_length = 0, is_fake = False\<rparr>"

definition hold_then_roll_tail :: "Note list" where
  "hold_then_roll_tail = [mk_note 0 0 ''hold_head'', mk_note 2 0 ''roll_tail'']"

definition holds_example :: "Note list" where
  "holds_example =
     [mk_note 0 0 ''hold_head'', mk_note 1 1 ''roll_head'', mk_note 2 0 ''tap'',
      mk_note 3 1 ''hold_tail'', mk_note 5 0 ''roll_tail'']"

text \<open>The grid symbol table as it is looked up: the kind a character stands for, with
  \<open>None\<close> for the no-note symbol and for every character outside the table.\<close>

definition symbol_kind :: "char \<Rightarrow> string option" where
  "symbol_kind ch =
     (if ch = CHR ''1'' then Some ''tap''
      else if ch = CHR ''2'' then Some ''hold_head''
      else if ch = CHR ''3'' then Some ''roll_tail''
      else if ch = CHR ''4'' then Some ''roll_head''
      else if ch = CHR ''M'' then Some ''mine''
      else if ch = CHR ''F'' then Some ''fake''
      else if ch = CHR ''L'' then Some ''lift''
      else None)"

text \<open>The notes of one character, of one row, and of one row after the length test.\<close>

definition symbol_note :: "rat \<Rightarrow> nat \<times> char \<Rightarrow> Note list" where
  "symbol_note b = (\<lambda>(col, ch).
     case symbol_kind ch of
       None \<Rightarrow> []
     | Some kind \<Rightarrow> [\<lparr>beat = b, column = col, type = kind, hold_length = 0, is_fake = False\<rparr>])"

definition row_notes :: "rat \<Rightarrow> string \<Rightarrow> Note list" where
  "row_notes b row = concat (map (symbol_note b) (enumerate 0 row))"

definition accepted_row_notes :: "rat \<Rightarrow> string \<Rightarrow> Note list" where
  "accepted_row_notes b row = (if length row = 4 \<or> length row = 8 then row_notes b row else [])"

text \<open>The beat of row \<open>r\<close> among the \<open>n\<close> rows of the measure that is number \<open>j\<close> among the
  measures with a non-blank row, the notes of that measure, and the notes of a whole
  grid.\<close>

definition row_beat :: "nat \<Rightarrow> nat \<Rightarrow> nat \<Rightarrow> rat" where
  "row_beat j n r = 4 * of_nat j + of_nat r * (4 / of_nat n)"

definition measure_notes :: "nat \<Rightarrow> string list \<Rightarrow> Note list" where
  "measure_notes j rows =
     concat (map (\<lambda>(r, row). accepted_row_notes (row_beat j (length rows) r) row) (enumerate 0 rows))"

definition nonblank_measures :: "string \<Rightarrow> string list list" where
  "nonblank_measures notes_data =
     filter (\<lambda>rows. rows \<noteq> []) (map measure_rows (split_on CHR '','' (strip notes_data)))"

definition grid_notes :: "string \<Rightarrow> Note list" where
  "grid_notes notes_data =
     concat (map (\<lambda>(j, rows). measure_notes j rows) (enumerate 0 (nonblank_measures notes_data)))"

text \<open>All non-blank rows of a grid in order, and the columns and kinds a row gives.\<close>

definition grid_rows :: "string \<Rightarrow> string list" where
  "grid_rows notes_data = concat (map measure_rows (split_on CHR '','' (strip notes_data)))"

definition row_symbols :: "string \<Rightarrow> (nat \<times> string) list" where
  "row_symbols row = map (\<lambda>n. (column n, type n)) (row_notes 0 row)"

definition wide_row_single :: string where
  "wide_row_single = ''#NOTES:dance-single::Easy:1::10000001;''"



definition no_blocks_example :: string where
  "no_blocks_example = ''#TITLE:x;#BPMS:0=1''"

section \<open>Chart sections share one note list\<close>

text \<open>
  Claim C1: in a file with two or more accepted \<^verbatim>\<open>#NOTES\<close> sections every chart has
  its own note sequence, built from its own grid only. The code does not do this: on a
  file with an Easy section holding one tap in column 0 and a Hard section holding one
  tap in column 1, both charts come back with \<^verbatim>\<open>None\<close> for notes (\<^verbatim>\<open>_parse_notes\<close>
  returns nothing), and the notes of both sections sit together in \<^verbatim>\<open>self.notes\<close>.
\<close>

theorem parse_sm_file_two_sections:
  "(case parse_sm_file two_sections [] of
      Inl e \<Rightarrow> False
    | Inr (charts, ns) \<Rightarrow>
        map chart_notes charts = [None, None] \<and>
        map (\<lambda>c. difficulty (chart_metadata c)) charts = [''Easy'', ''Hard''] \<and>
        ns = [tap_at 0 0, tap_at 0 1])"
  by code_simp

section \<open>Image width and the empty chart\<close>

text \<open>
  Claim C4: the image width is twice the padding plus the column count of the chart type
  (4 or 8) times the column width, whatever the notes are. The code takes the number of
  characters of the first note's type name for the column count: a singles chart whose
  first note is a tap is 80 + 3 * 24 = 152 wide instead of 176, and the width changes
  with the kind of the first note.
\<close>

theorem generate_visualization_width_from_type_name:
  "generate_visualization
     \<lparr>chart_metadata = md,
      chart_notes = Some [\<lparr>beat = 0, column = 3, type = ''tap'', hold_length = 0, is_fake = False\<rparr>],
      chart_type = ''dance-single''\<rparr> None = Inr (152, 320)
   \<and> generate_visualization
     \<lparr>chart_metadata = md,
      chart_notes = Some [\<lparr>beat = 0, column = 3, type = ''hold_head'', hold_length = 0, is_fake = False\<rparr>],
      chart_type = ''dance-single''\<rparr> None = Inr (296, 320)"
  by (simp add: generate_visualization_def derive_measures_def bind_err_def py_trunc_def)

text \<open>
  Claim C5: rendering a chart with no notes and no measure limit does not raise. In the
  code \<^verbatim>\<open>max\<close> over the empty sequence of beats raises ValueError before any
  dimension is computed.
\<close>

theorem generate_visualization_empty_raises:
  "generate_visualization \<lparr>chart_metadata = md, chart_notes = Some [], chart_type = ty\<rparr> None
     = Inl ValueError"
  by (simp add: generate_visualization_def derive_measures_def bind_err_def)

section \<open>Speed changes\<close>

text \<open>
  Claim C9: a well-formed speed list yields one (beat, multiplier, duration) tuple per
  entry, and \<^verbatim>\<open>#SPEEDS:0=1.5,0.5;\<close> yields the one tuple (0, 1.5, 0.5). The code splits
  the body on commas first, so the piece \<^verbatim>\<open>0=1.5\<close> has lost its duration and unpacking
  its data into two names raises ValueError.
\<close>

theorem parse_speeds_example_raises:
  "parse_speeds ''#SPEEDS:0=1.5,0.5;'' = Inl ValueError"
  by code_simp

section \<open>Timing lists\<close>

lemma takeWhile_shorter_iff: "length (takeWhile P xs) < length xs \<longleftrightarrow> (\<exists>x \<in> set xs. \<not> P x)"
proof -
  have "length (takeWhile P xs) \<le> length xs" by (rule length_takeWhile_le)
  moreover have "takeWhile P xs = xs \<longleftrightarrow> (\<forall>x \<in> set xs. P x)" by (rule takeWhile_eq_all_conv)
  moreover have "length (takeWhile P xs) = length xs \<Longrightarrow> takeWhile P xs = xs"
    by (metis takeWhile_eq_take take_all order_refl)
  ultimately show ?thesis by (metis le_neq_implies_less less_irrefl)
qed

lemma match_tag_at_Some:
  "match_tag_at tag s = Some b \<Longrightarrow>
     take (length tag + 2) s = ''#'' @ tag @ '':'' \<and> CHR '';'' \<in> set (drop (length tag + 2) s)"
  by (auto simp: match_tag_at_def Let_def takeWhile_shorter_iff split: if_splits)

lemma tag_block_occurs_Cons:
  "tag_block_occurs tag (c # cs) \<longleftrightarrow>
     (take (length tag + 2) (c # cs) = ''#'' @ tag @ '':'' \<and>
      CHR '';'' \<in> set (drop (length tag + 2) (c # cs)))
     \<or> tag_block_occurs tag cs"
proof -
  have ex: "\<And>P n. (\<exists>i \<in> set [0..<n]. P i) \<longleftrightarrow> (\<exists>i<n. P i)"
    by auto
  show ?thesis
    unfolding tag_block_occurs_def ex by (simp add: Ex_less_Suc2)
qed

lemma re_search_tag_absent:
  "\<not> tag_block_occurs tag content \<Longrightarrow> re_search_tag tag content = None"
proof (induction content)
  case Nil
  show ?case by simp
next
  case (Cons c cs)
  from Cons.prems have no_head: "match_tag_at tag (c # cs) = None"
    using match_tag_at_Some [of tag "c # cs"] tag_block_occurs_Cons [of tag c cs]
    by (cases "match_tag_at tag (c # cs)") auto
  from Cons.prems have "\<not> tag_block_occurs tag cs"
    by (simp add: tag_block_occurs_Cons)
  with Cons.IH no_head show ?case by simp
qed

lemma parse_pairs_absent: "\<not> tag_block_occurs tag content \<Longrightarrow> parse_pairs tag content = Inr []"
  by (simp add: parse_pairs_def pair_entries_def bind_err_def py_sorted_def re_search_tag_absent)

text \<open>
  Claim C10: for each of the six timing tags, when no block of that tag occurs in the
  text the parser of that tag returns the empty list and raises nothing.
\<close>

theorem absent_tag_gives_empty_list:
  "(\<not> tag_block_occurs ''BPMS'' content \<longrightarrow> parse_bpms content = Inr []) \<and>
   (\<not> tag_block_occurs ''STOPS'' content \<longrightarrow> parse_stops content = Inr []) \<and>
   (\<not> tag_block_occurs ''WARPS'' content \<longrightarrow> parse_warps content = Inr []) \<and>
   (\<not> tag_block_occurs ''FAKES'' content \<longrightarrow> parse_fakes content = Inr []) \<and>
   (\<not> tag_block_occurs ''SPEEDS'' content \<longrightarrow> parse_speeds content = Inr []) \<and>
   (\<not> tag_block_occurs ''SCROLLS'' content \<longrightarrow> parse_scrolls content = Inr [])"
  by (simp add: parse_bpms_def parse_stops_def parse_warps_def parse_fakes_def parse_scrolls_def
      parse_pairs_absent parse_speeds_def speed_entries_def bind_err_def py_sorted_def
      re_search_tag_absent)

lemma no_blocks_example_absent:
  "\<not> tag_block_occurs ''BPMS'' no_blocks_example"
  "\<not> tag_block_occurs ''STOPS'' no_blocks_example"
  "\<not> tag_block_occurs ''WARPS'' no_blocks_example"
  "\<not> tag_block_occurs ''FAKES'' no_blocks_example"
  "\<not> tag_block_occurs ''SPEEDS'' no_blocks_example"
  "\<not> tag_block_occurs ''SCROLLS'' no_blocks_example"
  by code_simp+

theorem absent_tag_gives_empty_list_witness:
  "\<not> tag_block_occurs ''BPMS'' no_blocks_example \<and> parse_bpms no_blocks_example = Inr [] \<and>
   \<not> tag_block_occurs ''STOPS'' no_blocks_example \<and> parse_stops no_blocks_example = Inr [] \<and>
   \<not> tag_block_occurs ''WARPS'' no_blocks_example \<and> parse_warps no_blocks_example = Inr [] \<and>
   \<not> tag_block_occurs ''FAKES'' no_blocks_example \<and> parse_fakes no_blocks_example = Inr [] \<and>
   \<not> tag_block_occurs ''SPEEDS'' no_blocks_example \<and> parse_speeds no_blocks_example = Inr [] \<and>
   \<not> tag_block_occurs ''SCROLLS'' no_blocks_example \<and> parse_scrolls no_blocks_example = Inr []"
  using absent_tag_gives_empty_list [of no_blocks_example] no_blocks_example_absent by blast

section \<open>Order of the timing lists\<close>

lemma py_lt_irrefl: "\<not> py_lt a a"
  by (cases a) simp_all

lemma py_lt_key: "a \<noteq> NaN \<Longrightarrow> b \<noteq> NaN \<Longrightarrow> py_lt a b \<longleftrightarrow> float_key a < float_key b"
  by (cases a; cases b) (simp_all add: float_key_def)

lemma py_eq_key: "a \<noteq> NaN \<Longrightarrow> b \<noteq> NaN \<Longrightarrow> py_eq a b \<longleftrightarrow> float_key a = float_key b"
  by (cases a; cases b) (simp_all add: float_key_def py_eq_def)

lemma py_le_key: "a \<noteq> NaN \<Longrightarrow> b \<noteq> NaN \<Longrightarrow> py_le a b \<longleftrightarrow> float_key a \<le> float_key b"
  by (auto simp: py_le_def py_lt_key py_eq_key)

lemma pair_le_key:
  assumes "fst x \<noteq> NaN" "snd x \<noteq> NaN" "fst y \<noteq> NaN" "snd y \<noteq> NaN"
  shows "pair_le x y \<longleftrightarrow> pair_key x \<le> pair_key y"
  using assms by (auto simp: pair_key_def pair_le_def py_lt_key py_eq_key py_le_key)

lemma pair_lt_key:
  assumes "fst x \<noteq> NaN" "snd x \<noteq> NaN" "fst y \<noteq> NaN" "snd y \<noteq> NaN"
  shows "pair_lt x y \<longleftrightarrow> pair_key x < pair_key y"
  using assms by (cases x; cases y) (auto simp: pair_key_def pair_lt_def py_lt_key py_eq_key)

lemma insert_desc_sorted:
  assumes tot: "\<forall>x \<in> A. \<forall>y \<in> A. \<not> lt x y \<longrightarrow> le y x"
    and lt_le: "\<forall>x \<in> A. \<forall>y \<in> A. lt x y \<longrightarrow> le x y"
    and trans: "\<forall>x \<in> A. \<forall>y \<in> A. \<forall>z \<in> A. le x y \<longrightarrow> le y z \<longrightarrow> le x z"
    and x: "x \<in> A" and ys: "set ys \<subseteq> A" and s: "sorted_wrt (\<lambda>a b. le b a) ys"
  shows "sorted_wrt (\<lambda>a b. le b a) (insert_desc lt x ys) \<and> set (insert_desc lt x ys) = insert x (set ys)"
  using ys s
proof (induction ys)
  case Nil
  show ?case by simp
next
  case (Cons y ys)
  then have yA: "y \<in> A" and ysA: "set ys \<subseteq> A" and sy: "\<forall>z \<in> set ys. le z y"
    and sys: "sorted_wrt (\<lambda>a b. le b a) ys"
    by auto
  note IH = Cons.IH [OF ysA sys]
  show ?case
  proof (cases "lt x y")
    case True
    then have "le x y" using lt_le x yA by blast
    with IH sy True show ?thesis by auto
  next
    case False
    then have yx: "le y x" using tot x yA by blast
    have "\<forall>z \<in> set ys. le z x"
    proof
      fix z assume z: "z \<in> set ys"
      then have "le z y" using sy by blast
      moreover have "z \<in> A" using z ysA by blast
      ultimately show "le z x" using trans yA x yx by blast
    qed
    with yx False sy sys show ?thesis by auto
  qed
qed

lemma fold_insert_desc_sorted:
  assumes tot: "\<forall>x \<in> A. \<forall>y \<in> A. \<not> lt x y \<longrightarrow> le y x"
    and lt_le: "\<forall>x \<in> A. \<forall>y \<in> A. lt x y \<longrightarrow> le x y"
    and trans: "\<forall>x \<in> A. \<forall>y \<in> A. \<forall>z \<in> A. le x y \<longrightarrow> le y z \<longrightarrow> le x z"
    and xs: "set xs \<subseteq> A" and acc: "set acc \<subseteq> A" and s: "sorted_wrt (\<lambda>a b. le b a) acc"
  shows "sorted_wrt (\<lambda>a b. le b a) (fold (insert_desc lt) xs acc) \<and>
         set (fold (insert_desc lt) xs acc) = set xs \<union> set acc"
  using xs acc s
proof (induction xs arbitrary: acc)
  case Nil
  then show ?case by simp
next
  case (Cons x xs)
  then have x: "x \<in> A" and xsA: "set xs \<subseteq> A" by auto
  from insert_desc_sorted [OF tot lt_le trans x Cons.prems(2) Cons.prems(3)]
  have 1: "sorted_wrt (\<lambda>a b. le b a) (insert_desc lt x acc)"
    and 2: "set (insert_desc lt x acc) = insert x (set acc)"
    by blast+
  have 3: "set (insert_desc lt x acc) \<subseteq> A" using 2 x Cons.prems(2) by auto
  from Cons.IH [OF xsA 3 1] 2 show ?case by auto
qed

lemma set_insert_desc: "set (insert_desc lt x ys) = insert x (set ys)"
  by (induction ys) auto

lemma set_py_sorted: "set (py_sorted lt xs) = set xs"
proof -
  have "set (fold (insert_desc lt) xs acc) = set xs \<union> set acc" for acc
    by (induction xs arbitrary: acc) (auto simp: set_insert_desc)
  then show ?thesis by (simp add: py_sorted_def)
qed

lemma py_sorted_pairs:
  assumes "nan_free xs"
  shows "sorted_wrt pair_le (py_sorted pair_lt xs)"
proof -
  define A where "A = {p :: pyfloat \<times> pyfloat. fst p \<noteq> NaN \<and> snd p \<noteq> NaN}"
  have xs: "set xs \<subseteq> A"
    using assms by (auto simp: A_def nan_free_def list_all_iff)
  have key_le: "pair_le x y \<longleftrightarrow> pair_key x \<le> pair_key y" if "x \<in> A" "y \<in> A" for x y
    using that by (simp add: A_def pair_le_key)
  have key_lt: "pair_lt x y \<longleftrightarrow> pair_key x < pair_key y" if "x \<in> A" "y \<in> A" for x y
    using that by (simp add: A_def pair_lt_key)
  have tot: "\<forall>x \<in> A. \<forall>y \<in> A. \<not> pair_lt x y \<longrightarrow> pair_le y x"
    by (simp add: key_le key_lt not_less)
  have lt_le: "\<forall>x \<in> A. \<forall>y \<in> A. pair_lt x y \<longrightarrow> pair_le x y"
    by (simp add: key_le key_lt less_imp_le)
  have trans: "\<forall>x \<in> A. \<forall>y \<in> A. \<forall>z \<in> A. pair_le x y \<longrightarrow> pair_le y z \<longrightarrow> pair_le x z"
  proof (intro ballI impI)
    fix x y z assume m: "x \<in> A" "y \<in> A" "z \<in> A" and l: "pair_le x y" "pair_le y z"
    from l m have "pair_key x \<le> pair_key y" and "pair_key y \<le> pair_key z"
      by (simp_all add: key_le)
    then have "pair_key x \<le> pair_key z" by (rule order_trans)
    then show "pair_le x z" using m by (simp add: key_le)
  qed
  have "sorted_wrt (\<lambda>a b. pair_le b a) (fold (insert_desc pair_lt) xs [])"
    using fold_insert_desc_sorted [OF tot lt_le trans xs, of "[]"] by simp
  then show ?thesis
    by (simp add: py_sorted_def sorted_wrt_rev)
qed

lemma beat_value_sorted_py_sorted:
  assumes "nan_free xs"
  shows "beat_value_sorted (py_sorted pair_lt xs)"
proof -
  have s: "sorted_wrt pair_le (py_sorted pair_lt xs)"
    by (rule py_sorted_pairs [OF assms])
  have 1: "sorted_wrt (\<lambda>x y. py_le (fst x) (fst y)) (py_sorted pair_lt xs)"
    by (rule sorted_wrt_mono_rel [OF _ s]) (auto simp: pair_le_def py_le_def)
  have 2: "sorted_wrt (\<lambda>x y. py_eq (fst x) (fst y) \<longrightarrow> py_le (snd x) (snd y)) (py_sorted pair_lt xs)"
  proof (rule sorted_wrt_mono_rel [OF _ s])
    fix x y assume "pair_le x y"
    then show "py_eq (fst x) (fst y) \<longrightarrow> py_le (snd x) (snd y)"
      by (auto simp: pair_le_def py_eq_def py_lt_irrefl)
  qed
  from 1 2 show ?thesis by (simp add: beat_value_sorted_def)
qed

lemma parse_pairs_sorted:
  assumes "parse_pairs tag content = Inr r" and "nan_free r"
  shows "beat_value_sorted r"
proof -
  from assms(1) obtain es where es: "pair_entries tag content = Inr es" and r: "r = py_sorted pair_lt es"
    by (auto simp: parse_pairs_def bind_err_def split: sum.splits)
  have "nan_free es"
    using assms(2) unfolding r nan_free_def list_all_iff set_py_sorted .
  then show ?thesis unfolding r by (rule beat_value_sorted_py_sorted)
qed

lemma split_on_nonempty: "split_on c s \<noteq> []"
  by (induction s) (auto split: list.splits)

lemma split_on_parts: "p \<in> set (split_on c s) \<Longrightarrow> c \<notin> set p \<and> set p \<subseteq> set s"
proof (induction s arbitrary: p)
  case Nil
  then show ?case by simp
next
  case (Cons a s)
  show ?case
  proof (cases "a = c")
    case True
    with Cons show ?thesis by auto
  next
    case False
    obtain w ws where ws: "split_on c s = w # ws"
      using split_on_nonempty [of c s] by (cases "split_on c s") auto
    with False Cons.prems have "p = a # w \<or> p \<in> set ws" by simp
    then show ?thesis
    proof
      assume "p = a # w"
      moreover have "c \<notin> set w \<and> set w \<subseteq> set s" using Cons.IH [of w] ws by simp
      ultimately show ?thesis using False by auto
    next
      assume "p \<in> set ws"
      then have "c \<notin> set p \<and> set p \<subseteq> set s" using Cons.IH [of p] ws by simp
      then show ?thesis by auto
    qed
  qed
qed

lemma split_on_absent: "c \<notin> set s \<Longrightarrow> split_on c s = [s]"
  by (induction s) auto

lemma speed_entry_comma_free:
  assumes "CHR '','' \<notin> set piece"
  shows "speed_entry piece acc = (if CHR ''='' \<in> set piece then Inl ValueError else Inr acc)"
proof (cases "CHR ''='' \<in> set piece")
  case False
  then show ?thesis by (simp add: speed_entry_def)
next
  case True
  have "speed_entry piece acc = Inl ValueError"
  proof (cases "\<exists>beat data. split_on CHR ''='' piece = [beat, data]")
    case False
    then show ?thesis using True
      by (auto simp: speed_entry_def split: list.splits)
  next
    case True
    then obtain beat data where bd: "split_on CHR ''='' piece = [beat, data]" by blast
    then have "data \<in> set (split_on CHR ''='' piece)" by simp
    then have "set data \<subseteq> set piece" using split_on_parts by blast
    then have "CHR '','' \<notin> set data" using assms by blast
    then have "split_on CHR '','' data = [data]" by (rule split_on_absent)
    then show ?thesis using bd \<open>CHR ''='' \<in> set piece\<close>
      by (simp add: speed_entry_def)
  qed
  with True show ?thesis by simp
qed

lemma speed_loop_comma_free:
  "\<forall>p \<in> set ps. CHR '','' \<notin> set p \<Longrightarrow> speed_loop ps acc = Inr r \<Longrightarrow> r = acc"
proof (induction ps arbitrary: acc)
  case Nil
  then show ?case by simp
next
  case (Cons p ps)
  then have "CHR '','' \<notin> set p" by simp
  from speed_entry_comma_free [OF this, of acc] Cons show ?case
    by (auto simp: bind_err_def split: if_splits)
qed

lemma parse_speeds_only_empty: "parse_speeds content = Inr r \<Longrightarrow> r = []"
proof -
  assume a: "parse_speeds content = Inr r"
  then obtain es where es: "speed_entries content = Inr es" and r: "r = py_sorted triple_lt es"
    by (auto simp: parse_speeds_def bind_err_def split: sum.splits)
  have "es = []"
  proof (cases "re_search_tag ''SPEEDS'' content")
    case None
    with es show ?thesis by (simp add: speed_entries_def)
  next
    case (Some body)
    have "\<forall>p \<in> set (split_on CHR '','' (strip body)). CHR '','' \<notin> set p"
      using split_on_parts by blast
    from speed_loop_comma_free [OF this] es Some show ?thesis
      by (simp add: speed_entries_def)
  qed
  with r show ?thesis by (simp add: py_sorted_def)
qed

text \<open>
  Claim C6 as stated: every parsed timing list is sorted by beat, and entries of equal
  beat keep the order they have in the text. The second half fails: \<^verbatim>\<open>sorted\<close> compares
  whole tuples, so of the two entries at beat 0 in \<^verbatim>\<open>#BPMS:0=200,0=100;\<close> the one
  written second comes out first. A sort by beat alone that keeps the input order would
  leave the two entries as they are.
\<close>

theorem equal_beats_not_in_input_order:
  "pair_entries ''BPMS'' ''#BPMS:0=200,0=100;'' = Inr [(Finite 0, Finite 200), (Finite 0, Finite 100)] \<and>
   parse_bpms ''#BPMS:0=200,0=100;'' = Inr [(Finite 0, Finite 100), (Finite 0, Finite 200)] \<and>
   sort_key fst [(0 :: rat, 200 :: rat), (0, 100)] = [(0, 200), (0, 100)]"
  by code_simp

text \<open>A beat that reads as nan compares false with everything, and the list comes back
  as it was written, beat 2 before beat 1.\<close>

lemma nan_beat_example:
  "parse_bpms ''#BPMS:2=1,nan=1,1=1;'' = Inr [(Finite 2, Finite 1), (NaN, Finite 1), (Finite 1, Finite 1)]"
  by code_simp

text \<open>
  Claim C6 as amended: for every text and each of the five tags \<^verbatim>\<open>BPMS\<close>, \<^verbatim>\<open>STOPS\<close>,
  \<^verbatim>\<open>WARPS\<close>, \<^verbatim>\<open>FAKES\<close> and \<^verbatim>\<open>SCROLLS\<close>, a returned list with no nan in it is sorted by
  beat, and its entries of equal beat are in the order of their values. The parser of
  \<^verbatim>\<open>SPEEDS\<close> returns no list but the empty one.
\<close>

theorem timing_lists_sorted_by_beat_then_value:
  "(\<forall>r. parse_bpms content = Inr r \<and> nan_free r \<longrightarrow> beat_value_sorted r) \<and>
   (\<forall>r. parse_stops content = Inr r \<and> nan_free r \<longrightarrow> beat_value_sorted r) \<and>
   (\<forall>r. parse_warps content = Inr r \<and> nan_free r \<longrightarrow> beat_value_sorted r) \<and>
   (\<forall>r. parse_fakes content = Inr r \<and> nan_free r \<longrightarrow> beat_value_sorted r) \<and>
   (\<forall>r. parse_scrolls content = Inr r \<and> nan_free r \<longrightarrow> beat_value_sorted r) \<and>
   (\<forall>r. parse_speeds content = Inr r \<longrightarrow> r = [])"
  unfolding parse_bpms_def parse_stops_def parse_warps_def parse_fakes_def parse_scrolls_def
  using parse_pairs_sorted parse_speeds_only_empty by blast

lemma timing_example_parsed:
  "parse_bpms timing_example = Inr [(Finite 0, Finite 100), (Finite 0, Finite 200), (Finite 4, Finite 120)]"
  "parse_stops timing_example = Inr [(Finite 2, Finite (1/4)), (Finite 8, Finite (1/2))]"
  "parse_warps timing_example = Inr [(Finite 1, PosInf)]"
  "parse_fakes timing_example = Inr [(Finite 3, Finite 1), (Finite 3, Finite 1)]"
  "parse_scrolls timing_example = Inr [(NegInf, Finite 2), (Finite 2, Finite 1)]"
  "parse_speeds timing_example = Inr []"
  by code_simp+

lemma timing_example_nan_free:
  "nan_free [(Finite 0, Finite 100), (Finite 0, Finite 200), (Finite 4, Finite 120)]"
  "nan_free [(Finite 2, Finite (1/4)), (Finite 8, Finite (1/2))]"
  "nan_free [(Finite 1, PosInf)]"
  "nan_free [(Finite 3, Finite 1), (Finite 3, Finite 1)]"
  "nan_free [(NegInf, Finite 2), (Finite 2, Finite 1)]"
  by (simp_all add: nan_free_def)

theorem timing_lists_sorted_by_beat_then_value_witness:
  "parse_bpms timing_example = Inr [(Finite 0, Finite 100), (Finite 0, Finite 200), (Finite 4, Finite 120)] \<and>
   nan_free [(Finite 0, Finite 100), (Finite 0, Finite 200), (Finite 4, Finite 120)] \<and>
   beat_value_sorted [(Finite 0, Finite 100), (Finite 0, Finite 200), (Finite 4, Finite 120)] \<and>
   parse_stops timing_example = Inr [(Finite 2, Finite (1/4)), (Finite 8, Finite (1/2))] \<and>
   nan_free [(Finite 2, Finite (1/4)), (Finite 8, Finite (1/2))] \<and>
   beat_value_sorted [(Finite 2, Finite (1/4)), (Finite 8, Finite (1/2))] \<and>
   parse_warps timing_example = Inr [(Finite 1, PosInf)] \<and>
   nan_free [(Finite 1, PosInf)] \<and>
   beat_value_sorted [(Finite 1, PosInf)] \<and>
   parse_fakes timing_example = Inr [(Finite 3, Finite 1), (Finite 3, Finite 1)] \<and>
   nan_free [(Finite 3, Finite 1), (Finite 3, Finite 1)] \<and>
   beat_value_sorted [(Finite 3, Finite 1), (Finite 3, Finite 1)] \<and>
   parse_scrolls timing_example = Inr [(NegInf, Finite 2), (Finite 2, Finite 1)] \<and>
   nan_free [(NegInf, Finite 2), (Finite 2, Finite 1)] \<and>
   beat_value_sorted [(NegInf, Finite 2), (Finite 2, Finite 1)] \<and>
   parse_speeds timing_example = Inr []"
  using timing_lists_sorted_by_beat_then_value [of timing_example]
    timing_example_parsed timing_example_nan_free
  by simp

section \<open>Hold resolution\<close>

lemma process_head_alt:
  "process_head h xs =
     (case first_tail xs h of
        Some t \<Rightarrow> xs[h := (xs ! h)\<lparr>hold_length := beat t - beat (xs ! h)\<rparr>]
      | None \<Rightarrow> xs)"
  by (simp add: process_head_def first_tail_def Let_def)

lemma length_process_head: "length (process_head h xs) = length xs"
  by (simp add: process_head_alt split: option.splits)

lemma core_process_head: "map core (process_head h xs) = map core xs"
proof (cases "h < length xs")
  case True
  then show ?thesis
    by (auto simp: process_head_alt map_update core_def list_update_same_conv split: option.splits)
next
  case False
  then show ?thesis
    by (simp add: process_head_alt list_update_beyond split: option.splits)
qed

lemma hold_length_process_head:
  assumes "i < length xs"
  shows "hold_length (process_head h xs ! i) =
           (if i = h then (case first_tail xs h of
                             Some t \<Rightarrow> beat t - beat (xs ! h)
                           | None \<Rightarrow> hold_length (xs ! h))
            else hold_length (xs ! i))"
  using assms by (auto simp: process_head_alt nth_list_update split: option.splits)

lemma find_core:
  "map core xs = map core ys \<Longrightarrow>
     map_option beat (find (\<lambda>t. column t = c \<and> (type t = ''hold_tail'' \<or> type t = ''roll_tail'')) xs) =
     map_option beat (find (\<lambda>t. column t = c \<and> (type t = ''hold_tail'' \<or> type t = ''roll_tail'')) ys)"
proof (induction xs arbitrary: ys)
  case Nil
  then show ?case by simp
next
  case (Cons x xs)
  then obtain y ys' where ys: "ys = y # ys'" and xy: "core x = core y" and r: "map core xs = map core ys'"
    by (cases ys) auto
  from xy have "beat x = beat y" "column x = column y" "type x = type y"
    by (simp_all add: core_def)
  with Cons.IH [OF r] ys show ?case by auto
qed

lemma core_nth: "map core xs = map core ns \<Longrightarrow> i < length ns \<Longrightarrow> core (xs ! i) = core (ns ! i)"
  by (metis length_map nth_map)

lemma first_tail_core:
  assumes "map core xs = map core ns" and "i < length ns"
  shows "map_option beat (first_tail xs i) = map_option beat (first_tail ns i)"
proof -
  have c: "column (xs ! i) = column (ns ! i)"
    using core_nth [OF assms] by (simp add: core_def)
  have "map core (drop (Suc i) xs) = map core (drop (Suc i) ns)"
    using assms(1) by (simp add: drop_map [symmetric])
  from find_core [OF this] c show ?thesis
    by (simp add: first_tail_def)
qed

lemma fold_process_head:
  assumes "distinct hs" and "\<forall>h \<in> set hs. h < length ns"
    and "map core xs = map core ns" and "i < length ns"
  shows "map core (fold process_head hs xs) = map core ns \<and>
         hold_length (fold process_head hs xs ! i) =
           (if i \<in> set hs then (case first_tail ns i of
                                  Some t \<Rightarrow> beat t - beat (ns ! i)
                                | None \<Rightarrow> hold_length (xs ! i))
            else hold_length (xs ! i))"
  using assms
proof (induction hs arbitrary: xs)
  case Nil
  then show ?case by simp
next
  case (Cons h hs)
  let ?xs' = "process_head h xs"
  have c': "map core ?xs' = map core ns"
    using Cons.prems(3) by (simp add: core_process_head)
  have len: "length xs = length ns"
    using Cons.prems(3) by (metis length_map)
  from Cons.prems have d: "distinct hs" and b: "\<forall>h \<in> set hs. h < length ns" and hn: "h \<notin> set hs"
    by simp_all
  note IH = Cons.IH [OF d b c' Cons.prems(4)]
  have bh: "beat (xs ! i) = beat (ns ! i)"
    using core_nth [OF Cons.prems(3) Cons.prems(4)] by (simp add: core_def)
  have ft: "map_option beat (first_tail xs i) = map_option beat (first_tail ns i)"
    by (rule first_tail_core [OF Cons.prems(3) Cons.prems(4)])
  have hl: "hold_length (?xs' ! i) =
           (if i = h then (case first_tail xs h of
                             Some t \<Rightarrow> beat t - beat (xs ! h)
                           | None \<Rightarrow> hold_length (xs ! h))
            else hold_length (xs ! i))"
    using Cons.prems(4) len by (simp add: hold_length_process_head)
  show ?case
  proof (cases "i = h")
    case True
    with hn have "i \<notin> set hs" by simp
    with IH True hl bh ft show ?thesis
      by (cases "first_tail xs h"; cases "first_tail ns h") auto
  next
    case False
    with IH hl show ?thesis by (auto split: option.splits)
  qed
qed

lemma set_hold_heads:
  "i \<in> set (hold_heads ns) \<longleftrightarrow> i < length ns \<and> (type (ns ! i) = ''hold_head'' \<or> type (ns ! i) = ''roll_head'')"
  by (auto simp: hold_heads_def)

lemma core_process_holds: "map core (process_holds ns) = map core ns"
proof (cases ns)
  case Nil
  then show ?thesis by (simp add: process_holds_def hold_heads_def)
next
  case (Cons n ns')
  then have "0 < length ns" by simp
  moreover have "distinct (hold_heads ns)" "\<forall>h \<in> set (hold_heads ns). h < length ns"
    by (auto simp: hold_heads_def)
  ultimately show ?thesis
    using fold_process_head [of "hold_heads ns" ns ns 0] by (simp add: process_holds_def)
qed

text \<open>
  Claim C3 as stated: a hold head takes its length from the first later hold tail in its
  column and a roll head from the first later roll tail; without such a tail the length
  is 0. The code accepts either kind of tail for either kind of head: a hold head at
  beat 0 followed in its column by a roll tail at beat 2, with no hold tail anywhere,
  gets the length 2.
\<close>

theorem hold_head_takes_roll_tail:
  "map type hold_then_roll_tail = [''hold_head'', ''roll_tail''] \<and>
   map column hold_then_roll_tail = [0, 0] \<and>
   map beat hold_then_roll_tail = [0, 2] \<and>
   map hold_length (process_holds hold_then_roll_tail) = [2, 0]"
  by code_simp

text \<open>
  Claim C3 as amended: for every note at a position \<open>i\<close> of the sequence, hold resolution
  keeps the length of the sequence and the beat, column and kind of the note. If the
  note is a hold head or a roll head, its hold length becomes the beat of the first later
  note in its column that is a hold tail or a roll tail, whichever the head is, minus its
  own beat; if there is no such note its hold length stays as it was, which is 0 for a
  note fresh from the grid. The hold length of a note of any other kind stays as it was.
\<close>

theorem process_holds_pairs_with_first_tail:
  assumes "i < length ns"
  shows "length (process_holds ns) = length ns \<and>
         beat (process_holds ns ! i) = beat (ns ! i) \<and>
         column (process_holds ns ! i) = column (ns ! i) \<and>
         type (process_holds ns ! i) = type (ns ! i) \<and>
         hold_length (process_holds ns ! i) =
           (if type (ns ! i) = ''hold_head'' \<or> type (ns ! i) = ''roll_head''
            then (case first_tail ns i of
                    Some t \<Rightarrow> beat t - beat (ns ! i)
                  | None \<Rightarrow> hold_length (ns ! i))
            else hold_length (ns ! i))"
proof -
  have d: "distinct (hold_heads ns)" and b: "\<forall>h \<in> set (hold_heads ns). h < length ns"
    by (auto simp: hold_heads_def)
  have c: "map core (process_holds ns) = map core ns"
    by (rule core_process_holds)
  then have len: "length (process_holds ns) = length ns"
    by (metis length_map)
  from core_nth [OF c assms]
  have f: "beat (process_holds ns ! i) = beat (ns ! i)" "column (process_holds ns ! i) = column (ns ! i)"
     "type (process_holds ns ! i) = type (ns ! i)"
    by (simp_all add: core_def)
  from fold_process_head [OF d b refl assms]
  have "hold_length (process_holds ns ! i) =
           (if i \<in> set (hold_heads ns) then (case first_tail ns i of
                                  Some t \<Rightarrow> beat t - beat (ns ! i)
                                | None \<Rightarrow> hold_length (ns ! i))
            else hold_length (ns ! i))"
    by (simp add: process_holds_def)
  with assms len f show ?thesis
    by (simp add: set_hold_heads)
qed

lemma holds_example_facts:
  "length holds_example = 5"
  "type (holds_example ! 1) = ''roll_head''"
  "beat (holds_example ! 1) = 1"
  "first_tail holds_example 1 = Some (mk_note 3 1 ''hold_tail'')"
  by code_simp+

theorem process_holds_pairs_with_first_tail_witness:
  "(1 :: nat) < length holds_example \<and>
   length (process_holds holds_example) = length holds_example \<and>
   type (process_holds holds_example ! 1) = ''roll_head'' \<and>
   first_tail holds_example 1 = Some (mk_note 3 1 ''hold_tail'') \<and>
   hold_length (process_holds holds_example ! 1) = 2"
  using process_holds_pairs_with_first_tail [of 1 holds_example] holds_example_facts
  by (simp add: mk_note_def)

section \<open>The notes of a grid\<close>

lemma NOTE_TYPES_eq: "NOTE_TYPES ch = (if ch = CHR ''0'' then Some ''none'' else symbol_kind ch)"
  by (simp add: NOTE_TYPES_def dict_of_def NOTE_TYPES_items_def symbol_kind_def)

lemma parse_char_eq: "parse_char b x ns = ns @ symbol_note b x"
  by (cases x) (auto simp: parse_char_def symbol_note_def NOTE_TYPES_eq symbol_kind_def split: option.splits)

lemma fold_append_concat:
  assumes "\<And>x s. f x s = s @ g x"
  shows "fold f xs s = s @ concat (map g xs)"
  by (induction xs arbitrary: s) (simp_all add: assms)

lemma parse_row_eq:
  "parse_row cb bpr (r, row) ns = ns @ accepted_row_notes (cb + of_nat r * bpr) row"
  by (simp add: parse_row_def accepted_row_notes_def row_notes_def
      fold_append_concat [where g = "symbol_note (cb + of_nat r * bpr)", OF parse_char_eq])

lemma rows_loop_eq:
  "fold (parse_row cb bpr) rs ns =
     ns @ concat (map (\<lambda>(r, row). accepted_row_notes (cb + of_nat r * bpr) row) rs)"
  by (rule fold_append_concat) (auto simp: parse_row_eq)

lemma parse_measure_eq:
  "parse_measure m (4 * of_nat j, ns) =
     (if measure_rows m = [] then (4 * of_nat j, ns)
      else (4 * of_nat (Suc j), ns @ measure_notes j (measure_rows m)))"
  by (simp add: parse_measure_def Let_def rows_loop_eq measure_notes_def row_beat_def algebra_simps)

lemma measures_loop_eq:
  "fold parse_measure ms (4 * of_nat j, ns) =
     (4 * of_nat (j + length (filter (\<lambda>rows. rows \<noteq> []) (map measure_rows ms))),
      ns @ concat (map (\<lambda>(j, rows). measure_notes j rows)
                    (enumerate j (filter (\<lambda>rows. rows \<noteq> []) (map measure_rows ms)))))"
proof (induction ms arbitrary: j ns)
  case Nil
  show ?case by simp
next
  case (Cons m ms)
  show ?case
  proof (cases "measure_rows m = []")
    case True
    then show ?thesis using Cons.IH [of j ns] by (simp add: parse_measure_eq)
  next
    case False
    then show ?thesis using Cons.IH [of "Suc j" "ns @ measure_notes j (measure_rows m)"]
      by (simp add: parse_measure_eq)
  qed
qed

lemma parse_notes_eq: "snd (parse_notes notes_data ns) = process_holds (ns @ grid_notes notes_data)"
  using measures_loop_eq [of "split_on CHR '','' (strip notes_data)" 0 ns]
  by (simp add: parse_notes_def grid_notes_def nonblank_measures_def)


lemma symbol_kind_not_hold_tail: "symbol_kind ch \<noteq> Some ''hold_tail''"
  by (simp add: symbol_kind_def)

lemma kind_symbol_note: "n \<in> set (symbol_note b x) \<Longrightarrow> symbol_kind (snd x) = Some (type n)"
  by (cases x) (auto simp: symbol_note_def split: option.splits)

lemma kind_grid_notes: "n \<in> set (grid_notes notes_data) \<Longrightarrow> \<exists>ch. symbol_kind ch = Some (type n)"
  by (auto simp: grid_notes_def measure_notes_def accepted_row_notes_def row_notes_def
      dest!: kind_symbol_note split: if_splits)

lemma type_process_holds: "map type (process_holds ns) = map type ns"
proof -
  have "map (\<lambda>c. fst (snd (snd c))) (map core (process_holds ns)) =
        map (\<lambda>c. fst (snd (snd c))) (map core ns)"
    by (simp only: core_process_holds)
  then show ?thesis by (simp add: core_def comp_def)
qed

text \<open>The hold-tail entry of the table is replaced by the roll-tail entry with the same
  key: the symbol \<^verbatim>\<open>3\<close> gives a roll tail.\<close>

lemma c2_example: "snd (parse_notes ''0030'' []) = [mk_note 0 2 ''roll_tail'']"
  by code_simp

text \<open>
  Claim C2: the symbol table is injective with all nine kinds reachable, so some grid
  makes the parser emit a hold tail. In the code the key \<^verbatim>\<open>3\<close> is written twice and
  the later entry wins: the symbol gives a roll tail, no key gives a hold tail, and no
  grid whatever makes \<^verbatim>\<open>_parse_notes\<close> emit a note of kind hold tail.
\<close>

theorem hold_tail_never_emitted:
  "NOTE_TYPES CHR ''3'' = Some ''roll_tail'' \<and>
   ''hold_tail'' \<notin> ran NOTE_TYPES \<and>
   ''hold_tail'' \<notin> set (map type (snd (parse_notes notes_data [])))"
proof (intro conjI)
  show "NOTE_TYPES CHR ''3'' = Some ''roll_tail''"
    by (simp add: NOTE_TYPES_eq symbol_kind_def)
  show "''hold_tail'' \<notin> ran NOTE_TYPES"
  proof
    assume "''hold_tail'' \<in> ran NOTE_TYPES"
    then obtain ch where "NOTE_TYPES ch = Some ''hold_tail''"
      by (auto simp: ran_def)
    then show False
      using symbol_kind_not_hold_tail [of ch] by (simp add: NOTE_TYPES_eq split: if_splits)
  qed
  show "''hold_tail'' \<notin> set (map type (snd (parse_notes notes_data [])))"
  proof
    assume "''hold_tail'' \<in> set (map type (snd (parse_notes notes_data [])))"
    then have "''hold_tail'' \<in> set (map type (grid_notes notes_data))"
      by (simp only: parse_notes_eq type_process_holds append_Nil)
    then obtain n where n: "n \<in> set (grid_notes notes_data)" and t: "type n = ''hold_tail''"
      by auto
    from kind_grid_notes [OF n] obtain ch where "symbol_kind ch = Some (type n)" ..
    with t show False using symbol_kind_not_hold_tail [of ch] by simp
  qed
qed

section \<open>Row lengths\<close>

lemma symbols_symbol_note:
  "map (\<lambda>n. (column n, type n)) (symbol_note b x) = map (\<lambda>n. (column n, type n)) (symbol_note 0 x)"
  by (cases x) (simp add: symbol_note_def split: option.splits)

lemma symbols_row_notes: "map (\<lambda>n. (column n, type n)) (row_notes b row) = row_symbols row"
proof -
  have "map (\<lambda>n. (column n, type n)) (concat (map (symbol_note b) xs)) =
        map (\<lambda>n. (column n, type n)) (concat (map (symbol_note 0) xs))" for xs
    by (induction xs) (simp_all add: symbols_symbol_note [of b])
  then show ?thesis by (simp add: row_symbols_def row_notes_def)
qed

lemma symbols_accepted:
  "map (\<lambda>n. (column n, type n)) (accepted_row_notes b row) =
     (if length row = 4 \<or> length row = 8 then row_symbols row else [])"
  by (simp add: accepted_row_notes_def symbols_row_notes)

lemma symbols_rows:
  "map (\<lambda>n. (column n, type n))
     (concat (map (\<lambda>(r, row). accepted_row_notes (f r) row) (enumerate k rows))) =
   concat (map row_symbols (filter (\<lambda>row. length row = 4 \<or> length row = 8) rows))"
  by (induction rows arbitrary: k) (simp_all add: symbols_accepted)

lemma symbols_measure_notes:
  "map (\<lambda>n. (column n, type n)) (measure_notes j rows) =
     concat (map row_symbols (filter (\<lambda>row. length row = 4 \<or> length row = 8) rows))"
  unfolding measure_notes_def by (rule symbols_rows)

lemma symbols_measures:
  "map (\<lambda>n. (column n, type n))
     (concat (map (\<lambda>(j, rows). measure_notes j rows) (enumerate k ms))) =
   concat (map row_symbols (filter (\<lambda>row. length row = 4 \<or> length row = 8) (concat ms)))"
  by (induction ms arbitrary: k) (simp_all add: symbols_measure_notes)

lemma concat_nonblank: "concat (filter (\<lambda>rows. rows \<noteq> []) xss) = concat xss"
  by (induction xss) simp_all

lemma symbols_grid_notes:
  "map (\<lambda>n. (column n, type n)) (grid_notes notes_data) =
     concat (map row_symbols (filter (\<lambda>row. length row = 4 \<or> length row = 8) (grid_rows notes_data)))"
  by (simp add: grid_notes_def symbols_measures nonblank_measures_def concat_nonblank grid_rows_def)

lemma symbols_process_holds:
  "map (\<lambda>n. (column n, type n)) (process_holds ns) = map (\<lambda>n. (column n, type n)) ns"
proof -
  have "map (\<lambda>c. (fst (snd c), fst (snd (snd c)))) (map core (process_holds ns)) =
        map (\<lambda>c. (fst (snd c), fst (snd (snd c)))) (map core ns)"
    by (simp only: core_process_holds)
  then show ?thesis by (simp add: core_def comp_def)
qed

text \<open>A row of five characters gives no note.\<close>

lemma c7_example: "snd (parse_notes ''10000'' []) = []"
  by code_simp

text \<open>
  Claim C7 as stated: a row is accepted exactly when its length is the column count of
  the chart type, so a row of 8 characters in a singles chart gives no notes. The grid
  parser is not told the chart type and accepts lengths 4 and 8 alike: the row
  \<^verbatim>\<open>10000001\<close> of a \<^verbatim>\<open>dance-single\<close> section gives a tap in column 0 and a tap in
  column 7.
\<close>

theorem eight_wide_row_in_singles_chart:
  "parse_sm_file wide_row_single [] =
     Inr ([\<lparr>chart_metadata =
              \<lparr>title = [], subtitle = [], artist = [], credit = [], difficulty = ''Easy'',
               meter = 1, bpms = [], stops = [], warps = [], fakes = [], speeds = [],
               scrolls = []\<rparr>,
            chart_notes = None, chart_type = ''dance-single''\<rparr>],
          [tap_at 0 0, tap_at 0 7])"
  by code_simp

text \<open>
  Claim C7 as amended: a row is accepted exactly when it has 4 or 8 characters, whatever
  the chart type. Processing a row of any other length leaves the notes as they are and
  raises nothing; an accepted row appends one note for each of its characters that
  stands for a kind, with the character's position as column. Over a whole grid, the
  columns and kinds of the notes are those of the non-blank rows of length 4 or 8, in
  order.
\<close>

theorem rows_of_length_4_or_8_accepted:
  "parse_row current_beat beats_per_row (row_idx, row) ns =
     (if length row = 4 \<or> length row = 8
      then ns @ row_notes (current_beat + of_nat row_idx * beats_per_row) row
      else ns) \<and>
   map (\<lambda>n. (column n, type n)) (snd (parse_notes notes_data [])) =
     concat (map row_symbols (filter (\<lambda>row. length row = 4 \<or> length row = 8) (grid_rows notes_data)))"
  by (simp add: parse_row_eq accepted_row_notes_def parse_notes_eq symbols_process_holds symbols_grid_notes)

section \<open>Beats\<close>





end
